theory Spec2Isabelle
  imports Main "HOL-Library.Sublist"
begin

section \<open>Python values and the builtins the provider uses\<close>

text \<open>
  The mock provider of \<^verbatim>\<open>core/framework/llm/mock.py\<close> works on Python strings, on
  messages (dictionaries with string keys and values of any type) and on an integer
  call counter. A Python string is modelled as a \<^typ>\<open>string\<close> whose characters are the
  code points below 256, so that \<^const>\<open>length\<close> is Python's \<^verbatim>\<open>len\<close>. The values a
  message can hold are \<^verbatim>\<open>None\<close>, booleans, integers, strings, lists and dictionaries
  with string keys; floating-point numbers and user-defined objects are left out. A
  dictionary is an association list in insertion order, the order its text form shows;
  a lookup takes the first entry of a key (a dictionary proper has each key once, and
  no result below needs that).
\<close>

datatype pyval =
    PNone
  | PBool bool
  | PInt int
  | PStr string
  | PList "pyval list"
  | PDict "(string \<times> pyval) list"

type_synonym pydict = "(string \<times> pyval) list"

subsection \<open>Characters\<close>

definition squote :: char where
  "squote = CHR 0x27"

definition dquote :: char where
  "dquote = CHR 0x22"

definition backslash :: char where
  "backslash = CHR 0x5C"

text \<open>\<^verbatim>\<open>str.lower\<close> on one code point below 256: the ASCII capitals and the Latin-1
  capitals (\<^verbatim>\<open>U+00C0\<close> to \<^verbatim>\<open>U+00DE\<close>, the multiplication sign \<^verbatim>\<open>U+00D7\<close> apart) move up by 32.\<close>

definition lower_char :: "char \<Rightarrow> char" where
  "lower_char c =
     (let n = (of_char c :: nat)
      in if (65 \<le> n \<and> n \<le> 90) \<or> (192 \<le> n \<and> n \<le> 222 \<and> n \<noteq> 215)
         then char_of (n + 32) else c)"

definition lower :: "string \<Rightarrow> string" where
  "lower s = map lower_char s"

subsection \<open>Substring test\<close>

text \<open>\<^verbatim>\<open>sub in s\<close> on strings: \<^verbatim>\<open>sub\<close> occurs in \<^verbatim>\<open>s\<close> as a contiguous run.\<close>

fun py_in :: "string \<Rightarrow> string \<Rightarrow> bool" where
  "py_in sub [] = (sub = [])"
| "py_in sub (c # cs) = (prefix sub (c # cs) \<or> py_in sub cs)"

subsection \<open>Text form of integers\<close>

definition digit_char :: "nat \<Rightarrow> char" where
  "digit_char d = ''0123456789'' ! (d mod 10)"

fun str_nat :: "nat \<Rightarrow> string" where
  "str_nat n = (if n < 10 then [digit_char n] else str_nat (n div 10) @ [digit_char (n mod 10)])"

declare str_nat.simps [simp del]

text \<open>\<^verbatim>\<open>str(i)\<close> for an integer, when it returns: decimal digits, a minus sign first when
  negative. On which integers \<^verbatim>\<open>str\<close> raises instead is said further down.\<close>

definition str_int :: "int \<Rightarrow> string" where
  "str_int i = (if i < 0 then CHR ''-'' # str_nat (nat (- i)) else str_nat (nat i))"

subsection \<open>Text form of strings, lists and dictionaries\<close>

definition hex_digit :: "nat \<Rightarrow> char" where
  "hex_digit d = ''0123456789abcdef'' ! (d mod 16)"

text \<open>Which code points below 256 \<^verbatim>\<open>repr\<close> copies as they are: the printable ones, that is
  all but the control characters, \<^verbatim>\<open>U+007F\<close> to \<^verbatim>\<open>U+00A0\<close> and the soft hyphen \<^verbatim>\<open>U+00AD\<close>.\<close>

definition printable :: "char \<Rightarrow> bool" where
  "printable c = (let n = (of_char c :: nat) in 32 \<le> n \<and> \<not> (127 \<le> n \<and> n \<le> 160) \<and> n \<noteq> 173)"

definition repr_char :: "char \<Rightarrow> char \<Rightarrow> string" where
  "repr_char q c =
     (if c = q \<or> c = backslash then [backslash, c]
      else if c = CHR 0x09 then [backslash, CHR ''t'']
      else if c = CHR 0x0A then [backslash, CHR ''n'']
      else if c = CHR 0x0D then [backslash, CHR ''r'']
      else if printable c then [c]
      else [backslash, CHR ''x'', hex_digit (of_char c div 16), hex_digit (of_char c mod 16)])"

text \<open>\<^verbatim>\<open>repr(s)\<close> for a string: in single quotes, unless the string holds a single quote
  and no double quote; the quote character in use and the backslash are escaped.\<close>

definition py_repr_str :: "string \<Rightarrow> string" where
  "py_repr_str s =
     (let q = (if squote \<in> set s \<and> dquote \<notin> set s then dquote else squote)
      in q # concat (map (repr_char q) s) @ [q])"

text \<open>\<^verbatim>\<open>", ".join(xs)\<close>\<close>

fun join_comma :: "string list \<Rightarrow> string" where
  "join_comma [] = []"
| "join_comma [x] = x"
| "join_comma (x # y # ys) = x @ '', '' @ join_comma (y # ys)"

primrec py_repr :: "pyval \<Rightarrow> string" where
  "py_repr PNone = ''None''"
| "py_repr (PBool b) = (if b then ''True'' else ''False'')"
| "py_repr (PInt i) = str_int i"
| "py_repr (PStr s) = py_repr_str s"
| "py_repr (PList xs) = ''['' @ join_comma (map py_repr xs) @ '']''"
| "py_repr (PDict kvs) =
     ''{'' @ join_comma (map (\<lambda>kv. py_repr_str (fst kv) @ '': '' @ snd kv)
                              (map (map_prod id py_repr) kvs)) @ ''}''"

text \<open>\<^verbatim>\<open>str(v)\<close>: a string is returned as it is, every other value in its \<^verbatim>\<open>repr\<close> form.\<close>

definition py_str :: "pyval \<Rightarrow> string" where
  "py_str v = (case v of PStr s \<Rightarrow> s | _ \<Rightarrow> py_repr v)"

text \<open>\<^verbatim>\<open>d.get(key)\<close> and \<^verbatim>\<open>d.get(key, default)\<close>.\<close>

definition dict_get :: "pydict \<Rightarrow> string \<Rightarrow> pyval" where
  "dict_get d k = (case map_of d k of None \<Rightarrow> PNone | Some v \<Rightarrow> v)"

definition dict_get_default :: "pydict \<Rightarrow> string \<Rightarrow> pyval \<Rightarrow> pyval" where
  "dict_get_default d k dflt = (case map_of d k of None \<Rightarrow> dflt | Some v \<Rightarrow> v)"

section \<open>JSON texts\<close>

text \<open>
  A recogniser for the JSON grammar of RFC 8259, used to say what "syntactically valid
  JSON text" means: optional whitespace, one value, optional whitespace, where a value is
  an object, an array, a string, a number or one of the three literal names. Each
  function returns the rest of the input after what it has read, or \<open>None\<close>.
\<close>

definition json_ws :: "char \<Rightarrow> bool" where
  "json_ws c = (c = CHR '' '' \<or> c = CHR 0x09 \<or> c = CHR 0x0A \<or> c = CHR 0x0D)"

definition skip_ws :: "string \<Rightarrow> string" where
  "skip_ws s = dropWhile json_ws s"

definition json_digit :: "char \<Rightarrow> bool" where
  "json_digit c = (c \<in> set ''0123456789'')"

definition json_hex :: "char \<Rightarrow> bool" where
  "json_hex c = (c \<in> set ''0123456789abcdefABCDEF'')"

text \<open>The characters of a string after its opening quote, up to and with the closing one.\<close>

fun json_chars :: "string \<Rightarrow> string option" where
  "json_chars [] = None"
| "json_chars (c # cs) =
     (if c = dquote then Some cs
      else if c = backslash then
        (case cs of
           [] \<Rightarrow> None
         | e # r \<Rightarrow>
             if e \<in> set [dquote, backslash, CHR ''/'', CHR ''b'', CHR ''f'', CHR ''n'', CHR ''r'', CHR ''t'']
             then json_chars r
             else if e = CHR ''u'' \<and> 4 \<le> length r \<and> list_all json_hex (take 4 r)
             then json_chars (drop 4 r)
             else None)
      else if (of_char c :: nat) < 32 then None
      else json_chars cs)"

text \<open>One or more digits.\<close>

definition json_digits1 :: "string \<Rightarrow> string option" where
  "json_digits1 s = (case s of [] \<Rightarrow> None
     | c # cs \<Rightarrow> if json_digit c then Some (dropWhile json_digit cs) else None)"

definition json_int :: "string \<Rightarrow> string option" where
  "json_int s = (case s of [] \<Rightarrow> None
     | c # cs \<Rightarrow> if c = CHR ''0'' then Some cs
                else if json_digit c then Some (dropWhile json_digit cs) else None)"

definition json_frac :: "string \<Rightarrow> string option" where
  "json_frac s = (case s of [] \<Rightarrow> Some s
     | c # cs \<Rightarrow> if c = CHR ''.'' then json_digits1 cs else Some s)"

definition json_exp :: "string \<Rightarrow> string option" where
  "json_exp s = (case s of [] \<Rightarrow> Some s
     | c # cs \<Rightarrow>
         if c = CHR ''e'' \<or> c = CHR ''E'' then
           (case cs of [] \<Rightarrow> None
            | d # ds \<Rightarrow> if d = CHR ''+'' \<or> d = CHR ''-'' then json_digits1 ds else json_digits1 cs)
         else Some s)"

definition json_number :: "string \<Rightarrow> string option" where
  "json_number s =
     (let s1 = (case s of [] \<Rightarrow> s | c # cs \<Rightarrow> if c = CHR ''-'' then cs else s)
      in case json_int s1 of None \<Rightarrow> None
         | Some s2 \<Rightarrow> (case json_frac s2 of None \<Rightarrow> None | Some s3 \<Rightarrow> json_exp s3))"

definition json_literal :: "string \<Rightarrow> string \<Rightarrow> string option" where
  "json_literal lit s = (if prefix lit s then Some (drop (length lit) s) else None)"

text \<open>
  Values, the elements of an array after its opening bracket and the members of an
  object after its opening brace. The first argument bounds the nesting and the number of
  elements read; every call on it reads at least one character, so the length of the
  text is enough.
\<close>

fun json_value :: "nat \<Rightarrow> string \<Rightarrow> string option"
  and json_elements :: "nat \<Rightarrow> string \<Rightarrow> string option"
  and json_members :: "nat \<Rightarrow> string \<Rightarrow> string option" where
  "json_value 0 s = None"
| "json_value (Suc n) s =
     (case s of
        [] \<Rightarrow> None
      | c # cs \<Rightarrow>
          if c = CHR ''{'' then
            (case skip_ws cs of [] \<Rightarrow> None
             | d # r \<Rightarrow> if d = CHR ''}'' then Some r else json_members n (d # r))
          else if c = CHR ''['' then
            (case skip_ws cs of [] \<Rightarrow> None
             | d # r \<Rightarrow> if d = CHR '']'' then Some r else json_elements n (d # r))
          else if c = dquote then json_chars cs
          else if c = CHR ''t'' then json_literal ''true'' s
          else if c = CHR ''f'' then json_literal ''false'' s
          else if c = CHR ''n'' then json_literal ''null'' s
          else json_number s)"
| "json_elements 0 s = None"
| "json_elements (Suc n) s =
     (case json_value n s of
        None \<Rightarrow> None
      | Some r \<Rightarrow>
          (case skip_ws r of [] \<Rightarrow> None
           | d # r' \<Rightarrow> if d = CHR '','' then json_elements n (skip_ws r')
                      else if d = CHR '']'' then Some r' else None))"
| "json_members 0 s = None"
| "json_members (Suc n) s =
     (case s of
        [] \<Rightarrow> None
      | q # cs \<Rightarrow>
          if q \<noteq> dquote then None
          else (case json_chars cs of
                  None \<Rightarrow> None
                | Some r \<Rightarrow>
                    (case skip_ws r of [] \<Rightarrow> None
                     | d # r' \<Rightarrow>
                         if d \<noteq> CHR '':'' then None
                         else (case json_value n (skip_ws r') of
                                 None \<Rightarrow> None
                               | Some r2 \<Rightarrow>
                                   (case skip_ws r2 of [] \<Rightarrow> None
                                    | e # r3 \<Rightarrow>
                                        if e = CHR '','' then json_members n (skip_ws r3)
                                        else if e = CHR ''}'' then Some r3 else None)))))"

definition is_json :: "string \<Rightarrow> bool" where
  "is_json s = (case json_value (Suc (length s)) (skip_ws s) of
                  None \<Rightarrow> False
                | Some r \<Rightarrow> skip_ws r = [])"

section \<open>The mock provider\<close>

text \<open>Modelled from the spec: \<^verbatim>\<open>Tool\<close> and \<^verbatim>\<open>LLMResponse\<close> are declared in
  \<^verbatim>\<open>framework/llm/provider.py\<close>, which is not among the sources. A tool has a name and
  a schema of its arguments that the provider never reads; a response has the six fields
  that \<^verbatim>\<open>mock.py\<close> fills in.\<close>

record Tool =
  name :: string
  schema :: pyval

record LLMResponse =
  content :: string
  response_model :: string
  input_tokens :: int
  output_tokens :: int
  stop_reason :: string
  raw_response :: pyval

text \<open>The provider object: \<^verbatim>\<open>self.model\<close>, \<^verbatim>\<open>self.default_response\<close> and
  \<^verbatim>\<open>self._call_count\<close>.\<close>

record MockLLMProvider =
  model :: string
  default_response :: "string option"
  priv_call_count :: int

text \<open>\<^verbatim>\<open>__init__(model, default_response)\<close>; the defaults of the two arguments are
  \<^verbatim>\<open>"mock-model"\<close> and \<^verbatim>\<open>None\<close>.\<close>

definition init :: "string \<Rightarrow> string option \<Rightarrow> MockLLMProvider" where
  "init m d = \<lparr>model = m, default_response = d, priv_call_count = 0\<rparr>"

definition init_default :: MockLLMProvider where
  "init_default = init ''mock-model'' None"

text \<open>The property \<^verbatim>\<open>call_count\<close> and the method \<^verbatim>\<open>reset\<close>.\<close>

definition call_count :: "MockLLMProvider \<Rightarrow> int" where
  "call_count self = priv_call_count self"

definition reset :: "MockLLMProvider \<Rightarrow> MockLLMProvider" where
  "reset self = self\<lparr>priv_call_count := 0\<rparr>"

text \<open>The loop \<^verbatim>\<open>for msg in reversed(messages)\<close> of both operations, on the reversed
  list: it stops at the first message whose role is the string \<^verbatim>\<open>"user"\<close> and takes
  \<^verbatim>\<open>str(msg.get("content", ""))\<close>; when the loop ends without one, \<^verbatim>\<open>last_message\<close>
  keeps its initial value, the empty string.\<close>

fun scan_user :: "pydict list \<Rightarrow> string" where
  "scan_user [] = []"
| "scan_user (msg # rest) =
     (if dict_get msg ''role'' = PStr ''user''
      then py_str (dict_get_default msg ''content'' (PStr []))
      else scan_user rest)"

definition last_user_message :: "pydict list \<Rightarrow> string" where
  "last_user_message messages = scan_user (rev messages)"

text \<open>The canned responses of \<^verbatim>\<open>_generate_contextual_response\<close>.\<close>

definition search_response :: string where
  "search_response =
     ''[Mock] Search results: Found 3 relevant sources. '' @
     ''1) Example article, 2) Research paper, 3) Documentation.''"

definition summary_response :: string where
  "summary_response =
     ''[Mock] Summary: Key points extracted from the content. '' @
     ''Main findings and conclusions included.''"

definition parse_response :: string where
  "parse_response = ''[Mock] Parsed: topic='example', keywords=['mock', 'test']''"

definition evaluation_response :: string where
  "evaluation_response = ''[Mock] Evaluation: Score 85/100. Quality: Good. Status: Approved.''"

definition report_response :: string where
  "report_response =
     ''[Mock] Report generated with introduction, findings, '' @
     ''and conclusion sections.''"

definition fallback_response :: "int \<Rightarrow> string" where
  "fallback_response n =
     ''[Mock] Processed request (call #'' @ str_int n @ ''). '' @
     ''This is a mock response for testing without API calls.''"

definition generate_contextual_response :: "MockLLMProvider \<Rightarrow> string \<Rightarrow> string \<Rightarrow> string" where
  "generate_contextual_response self user_message system =
     (let combined = lower (user_message @ system)
      in if py_in ''search'' combined then search_response
         else if py_in ''summar'' combined then summary_response
         else if py_in ''parse'' combined \<or> py_in ''extract'' combined then parse_response
         else if py_in ''evaluat'' combined \<or> py_in ''quality'' combined then evaluation_response
         else if py_in ''write'' combined \<or> py_in ''report'' combined then report_response
         else fallback_response (priv_call_count self))"

definition json_mode_response :: string where
  \<open>json_mode_response = ''{"status": "success", "mock": true, "message": "Mock response"}''\<close>

text \<open>Truth value of \<^verbatim>\<open>self.default_response\<close>, a string or \<^verbatim>\<open>None\<close>: \<^verbatim>\<open>None\<close> and the
  empty string are false.\<close>

definition truthy :: "string option \<Rightarrow> bool" where
  "truthy d = (case d of None \<Rightarrow> False | Some s \<Rightarrow> s \<noteq> [])"

text \<open>\<^verbatim>\<open>complete\<close> returns the response and the provider with its counter advanced.
  The arguments \<^verbatim>\<open>tools\<close>, \<^verbatim>\<open>max_tokens\<close> and \<^verbatim>\<open>response_format\<close> are accepted and
  not read, as in the source.\<close>

definition complete ::
  "MockLLMProvider \<Rightarrow> pydict list \<Rightarrow> string \<Rightarrow> Tool list option \<Rightarrow> int \<Rightarrow> pydict option \<Rightarrow> bool
     \<Rightarrow> LLMResponse \<times> MockLLMProvider" where
  "complete self0 messages system tools max_tokens response_format json_mode =
     (let self = self0\<lparr>priv_call_count := priv_call_count self0 + 1\<rparr>;
          last_message = last_user_message messages;
          content =
            (if truthy (default_response self) then the (default_response self)
             else if json_mode then json_mode_response
             else generate_contextual_response self last_message system)
      in (\<lparr>content = content,
           response_model = model self,
           input_tokens = int (length (py_repr (PList (map PDict messages)))) div 4,
           output_tokens = int (length content) div 4,
           stop_reason = ''end_turn'',
           raw_response =
             PDict [(''mock'', PBool True), (''call_count'', PInt (priv_call_count self))]\<rparr>,
          self))"

text \<open>\<^verbatim>\<open>complete_with_tools\<close>: \<^verbatim>\<open>tools\<close> may be \<^verbatim>\<open>None\<close> or empty, and then no name is
  listed; \<^verbatim>\<open>tool_executor\<close> and \<^verbatim>\<open>max_iterations\<close> are accepted and not read. The
  f-string puts the list of names in its text form and the first 100 characters of the
  last user message.\<close>

definition complete_with_tools ::
  "MockLLMProvider \<Rightarrow> pydict list \<Rightarrow> string \<Rightarrow> Tool list option \<Rightarrow> (string \<Rightarrow> pyval \<Rightarrow> pyval) \<Rightarrow> int
     \<Rightarrow> LLMResponse \<times> MockLLMProvider" where
  "complete_with_tools self0 messages system tools tool_executor max_iterations =
     (let self = self0\<lparr>priv_call_count := priv_call_count self0 + 1\<rparr>;
          last_message = take 100 (last_user_message messages);
          tool_names = (case tools of None \<Rightarrow> [] | Some ts \<Rightarrow> map name ts);
          content =
            ''[Mock] Processed with tools: '' @ py_repr (PList (map PStr tool_names)) @ ''. '' @
            ''Context: '' @ last_message @ ''...''
      in (\<lparr>content = content,
           response_model = model self,
           input_tokens = int (length (py_repr (PList (map PDict messages)))) div 4,
           output_tokens = int (length content) div 4,
           stop_reason = ''end_turn'',
           raw_response =
             PDict [(''mock'', PBool True), (''tools_available'', PList (map PStr tool_names))]\<rparr>,
          self))"

section \<open>Exceptions of the builtins\<close>

text \<open>
  \<^const>\<open>str_int\<close> and \<^const>\<open>py_repr\<close> give the text that \<^verbatim>\<open>str\<close> returns when it returns.
  CPython's \<^verbatim>\<open>str\<close> does not always return: it raises \<^verbatim>\<open>ValueError\<close> on an integer of more
  digits than \<^verbatim>\<open>sys.int_max_str_digits\<close> (4300 unless reconfigured), in \<^verbatim>\<open>str\<close>, \<^verbatim>\<open>repr\<close> and
  f-strings alike, and \<^verbatim>\<open>RecursionError\<close> when the values are nested more deeply than the
  interpreter's stack allows. The functions of this section say which exception, if any,
  each call of \<^verbatim>\<open>complete\<close> raises.
\<close>

datatype py_error = ValueError | RecursionError

definition int_max_str_digits :: nat where
  "int_max_str_digits = 4300"

text \<open>An integer with more than \<^const>\<open>int_max_str_digits\<close> decimal digits.\<close>

definition too_long :: "int \<Rightarrow> bool" where
  "too_long i = (10 ^ int_max_str_digits \<le> abs i)"

text \<open>The first exception of a sequence of calls made one after the other.\<close>

fun first_raise :: "py_error option list \<Rightarrow> py_error option" where
  "first_raise [] = None"
| "first_raise (None # rest) = first_raise rest"
| "first_raise (Some e # rest) = Some e"

text \<open>
  \<^verbatim>\<open>repr(v)\<close> with room for \<open>depth\<close> nested calls of \<^verbatim>\<open>repr\<close>: every value takes one call, and
  the elements of a list and the keys and values of a dictionary are written one level
  further down, in order. How much room there is when \<^verbatim>\<open>complete\<close> runs depends on the
  interpreter and on the caller's stack, so \<open>depth\<close> is a parameter. (The keys of a
  dictionary are strings, written at the level of the values; they never raise where a
  value does not.)
\<close>

fun repr_raises :: "nat \<Rightarrow> pyval \<Rightarrow> py_error option" where
  "repr_raises 0 v = Some RecursionError"
| "repr_raises (Suc d) (PInt i) = (if too_long i then Some ValueError else None)"
| "repr_raises (Suc d) (PList xs) = first_raise (map (repr_raises d) xs)"
| "repr_raises (Suc d) (PDict kvs) = first_raise (map (\<lambda>kv. repr_raises d (snd kv)) kvs)"
| "repr_raises (Suc d) v = None"

text \<open>\<^verbatim>\<open>str(v)\<close>: a string is returned as it is, every other value goes through \<^verbatim>\<open>repr\<close>.\<close>

definition str_raises :: "nat \<Rightarrow> pyval \<Rightarrow> py_error option" where
  "str_raises depth v = (case v of PStr s \<Rightarrow> None | _ \<Rightarrow> repr_raises depth v)"

text \<open>The loop over the reversed messages (lines 64 to 67): only the content of the first
  user message found is turned into text.\<close>

fun scan_user_raises :: "nat \<Rightarrow> pydict list \<Rightarrow> py_error option" where
  "scan_user_raises depth [] = None"
| "scan_user_raises depth (msg # rest) =
     (if dict_get msg ''role'' = PStr ''user''
      then str_raises depth (dict_get_default msg ''content'' (PStr []))
      else scan_user_raises depth rest)"

text \<open>\<^verbatim>\<open>_generate_contextual_response\<close>: only the fallback branch formats an integer, the
  call count.\<close>

definition generate_contextual_response_raises ::
  "MockLLMProvider \<Rightarrow> string \<Rightarrow> string \<Rightarrow> py_error option" where
  "generate_contextual_response_raises self user_message system =
     (let combined = lower (user_message @ system)
      in if py_in ''search'' combined then None
         else if py_in ''summar'' combined then None
         else if py_in ''parse'' combined \<or> py_in ''extract'' combined then None
         else if py_in ''evaluat'' combined \<or> py_in ''quality'' combined then None
         else if py_in ''write'' combined \<or> py_in ''report'' combined then None
         else if too_long (priv_call_count self) then Some ValueError else None)"

text \<open>
  \<^verbatim>\<open>complete\<close> with its exceptions: the counter is advanced first (line 60) and stays
  advanced when a later line raises; then come the scan of the messages (line 66), the
  choice of the content (lines 70 to 75) and \<^verbatim>\<open>str(messages)\<close> (line 80). When no line
  raises, the response is the one of \<^const>\<open>complete\<close>.
\<close>

definition complete_outcome ::
  "nat \<Rightarrow> MockLLMProvider \<Rightarrow> pydict list \<Rightarrow> string \<Rightarrow> Tool list option \<Rightarrow> int \<Rightarrow> pydict option \<Rightarrow> bool
     \<Rightarrow> (py_error + LLMResponse) \<times> MockLLMProvider" where
  "complete_outcome depth self0 messages system tools max_tokens response_format json_mode =
     (let self = self0\<lparr>priv_call_count := priv_call_count self0 + 1\<rparr>
      in case scan_user_raises depth (rev messages) of
           Some e \<Rightarrow> (Inl e, self)
         | None \<Rightarrow>
             (case (if truthy (default_response self) then None
                    else if json_mode then None
                    else generate_contextual_response_raises self (last_user_message messages) system) of
                Some e \<Rightarrow> (Inl e, self)
              | None \<Rightarrow>
                  (case repr_raises depth (PList (map PDict messages)) of
                     Some e \<Rightarrow> (Inl e, self)
                   | None \<Rightarrow>
                       (Inr (fst (complete self0 messages system tools max_tokens response_format
                                    json_mode)),
                        self))))"

section \<open>The specification's reading of the operations\<close>

text \<open>
  The definitions of this section follow the words of the specification, not the code;
  the theorems below compare them with the code.
\<close>

subsection \<open>The priority table\<close>

text \<open>The table of section 4.2: each category lists its substrings and has one canned
  response; the rows are in priority order.\<close>

definition categories :: "(string list \<times> string) list" where
  "categories =
     [([''search''], search_response),
      ([''summar''], summary_response),
      ([''parse'', ''extract''], parse_response),
      ([''evaluat'', ''quality''], evaluation_response),
      ([''write'', ''report''], report_response)]"

definition matches :: "string list \<times> string \<Rightarrow> string \<Rightarrow> bool" where
  "matches cat text = list_ex (\<lambda>sub. py_in sub text) (fst cat)"

text \<open>The response of the first row that matches, if any.\<close>

fun first_match :: "(string list \<times> string) list \<Rightarrow> string \<Rightarrow> string option" where
  "first_match [] text = None"
| "first_match (cat # rest) text =
     (if matches cat text then Some (snd cat) else first_match rest text)"

text \<open>Classification of a combined lowercase text; without a match, the generic fallback
  that names the call count.\<close>

definition classify :: "string \<Rightarrow> int \<Rightarrow> string" where
  "classify text n = (case first_match categories text of Some r \<Rightarrow> r | None \<Rightarrow> fallback_response n)"

subsection \<open>The most recent user message\<close>

definition is_user :: "pydict \<Rightarrow> bool" where
  "is_user msg = (dict_get msg ''role'' = PStr ''user'')"

text \<open>The content, as text, of the most recent message whose role is \<^verbatim>\<open>user\<close>, or the
  empty string when no message has that role. A message without a \<^verbatim>\<open>content\<close> entry
  counts as one with empty content.\<close>

definition most_recent_user_content :: "pydict list \<Rightarrow> string" where
  "most_recent_user_content messages =
     (case filter is_user messages of
        [] \<Rightarrow> []
      | u # us \<Rightarrow> py_str (dict_get_default (last (u # us)) ''content'' (PStr [])))"

subsection \<open>Well-formed results\<close>

text \<open>A completion result as section 3 describes it: the stop reason is one of the closed
  set, and the two token counts are non-negative, the second one fixed by the content.\<close>

definition valid_result :: "LLMResponse \<Rightarrow> bool" where
  "valid_result r =
     (stop_reason r \<in> set [''end_turn'', ''tool_use'', ''max_tokens'']
      \<and> 0 \<le> input_tokens r \<and> 0 \<le> output_tokens r
      \<and> output_tokens r = int (length (content r)) div 4)"

subsection \<open>Inputs within the interpreter's limits\<close>

text \<open>How deeply a value is nested, counting the value itself, and whether all its
  integers have at most \<^const>\<open>int_max_str_digits\<close> digits.\<close>

primrec nesting :: "pyval \<Rightarrow> nat" where
  "nesting PNone = 1"
| "nesting (PBool b) = 1"
| "nesting (PInt i) = 1"
| "nesting (PStr s) = 1"
| "nesting (PList xs) = Suc (foldr max (map nesting xs) 0)"
| "nesting (PDict kvs) = Suc (foldr max (map snd (map (map_prod id nesting) kvs)) 0)"

primrec short_ints :: "pyval \<Rightarrow> bool" where
  "short_ints PNone = True"
| "short_ints (PBool b) = True"
| "short_ints (PInt i) = (\<not> too_long i)"
| "short_ints (PStr s) = True"
| "short_ints (PList xs) = list_all id (map short_ints xs)"
| "short_ints (PDict kvs) = list_all snd (map (map_prod id short_ints) kvs)"

subsection \<open>Sequences of calls on one provider\<close>

text \<open>The public surface of the provider: the two contract operations with their
  arguments, \<^verbatim>\<open>reset()\<close>, and reading the property \<^verbatim>\<open>call_count\<close>.\<close>

datatype call =
    Complete "pydict list" string "Tool list option" int "pydict option" bool
  | CompleteWithTools "pydict list" string "Tool list option" "string \<Rightarrow> pyval \<Rightarrow> pyval" int
  | Reset
  | ReadCallCount

fun apply_call :: "MockLLMProvider \<Rightarrow> call \<Rightarrow> MockLLMProvider" where
  "apply_call self (Complete messages system tools max_tokens response_format json_mode) =
     snd (complete self messages system tools max_tokens response_format json_mode)"
| "apply_call self (CompleteWithTools messages system tools tool_executor max_iterations) =
     snd (complete_with_tools self messages system tools tool_executor max_iterations)"
| "apply_call self Reset = reset self"
| "apply_call self ReadCallCount = self"

definition run_calls :: "MockLLMProvider \<Rightarrow> call list \<Rightarrow> MockLLMProvider" where
  "run_calls self cs = foldl apply_call self cs"

fun is_completion :: "call \<Rightarrow> bool" where
  "is_completion (Complete _ _ _ _ _ _) = True"
| "is_completion (CompleteWithTools _ _ _ _ _) = True"
| "is_completion _ = False"

fun is_reset :: "call \<Rightarrow> bool" where
  "is_reset Reset = True"
| "is_reset _ = False"

subsection \<open>Names that appear unchanged in a list's text form\<close>


section \<open>Which content \<^const>\<open>complete\<close> returns\<close>

lemma complete_content:
  "content (fst (complete self messages system tools max_tokens response_format json_mode)) =
     (if truthy (default_response self) then the (default_response self)
      else if json_mode then json_mode_response
      else generate_contextual_response (self\<lparr>priv_call_count := priv_call_count self + 1\<rparr>)
             (last_user_message messages) system)"
  by (simp add: complete_def Let_def)

lemma complete_state:
  "snd (complete self messages system tools max_tokens response_format json_mode) =
     self\<lparr>priv_call_count := priv_call_count self + 1\<rparr>"
  by (simp add: complete_def Let_def)

lemma complete_with_tools_state:
  "snd (complete_with_tools self messages system tools tool_executor max_iterations) =
     self\<lparr>priv_call_count := priv_call_count self + 1\<rparr>"
  by (simp add: complete_with_tools_def Let_def)

lemma json_mode_response_valid: "is_json json_mode_response"
  by code_simp

text \<open>
  C1, as amended. When the provider was constructed with a non-empty override
  (\<^verbatim>\<open>default_response\<close>), the content that \<^verbatim>\<open>complete\<close> returns is that override, whatever
  the messages, the system string and \<^verbatim>\<open>json_mode\<close> are.
\<close>

theorem complete_override_wins:
  assumes "default_response self = Some d" and "d \<noteq> []"
  shows "content (fst (complete self messages system tools max_tokens response_format json_mode)) = d"
  using assms by (simp add: complete_content truthy_def)

theorem complete_override_wins_witness:
  "default_response (init ''mock-model'' (Some ''fixed'')) = Some ''fixed'' \<and> ''fixed'' \<noteq> [] \<and>
   content (fst (complete (init ''mock-model'' (Some ''fixed''))
     [[(''role'', PStr ''user''), (''content'', PStr ''search the web'')]] [] None 1024 None True))
   = ''fixed''"
proof -
  have a: "default_response (init ''mock-model'' (Some ''fixed'')) = Some ''fixed''"
    by (simp add: init_def)
  have b: "''fixed'' \<noteq> []"
    by simp
  show ?thesis
    using a b complete_override_wins [OF a b] by simp
qed

text \<open>
  C1, as stated, fails when the override configured at construction is the empty string:
  with \<^verbatim>\<open>json_mode\<close> the content is then the JSON object, not the override.
\<close>

theorem complete_empty_override_counterexample:
  "default_response (init ''mock-model'' (Some [])) = Some [] \<and>
   content (fst (complete (init ''mock-model'' (Some [])) [] [] None 1024 None True)) \<noteq> []"
  by (simp add: complete_content truthy_def init_def json_mode_response_def)

text \<open>
  C10. An override configured as the empty string is treated as no override: the content
  of \<^verbatim>\<open>complete\<close> is the fixed JSON object when \<^verbatim>\<open>json_mode\<close> is true and the classified
  contextual response otherwise, and the whole response is the one of a provider whose
  \<^verbatim>\<open>default_response\<close> is \<^verbatim>\<open>None\<close>.
\<close>

theorem complete_empty_override_ignored:
  assumes "default_response self = Some []"
  shows "content (fst (complete self messages system tools max_tokens response_format json_mode)) =
           (if json_mode then json_mode_response
            else generate_contextual_response (self\<lparr>priv_call_count := priv_call_count self + 1\<rparr>)
                   (last_user_message messages) system)
         \<and> content (fst (complete self messages system tools max_tokens response_format json_mode)) \<noteq> []
         \<and> fst (complete self messages system tools max_tokens response_format json_mode) =
           fst (complete (self\<lparr>default_response := None\<rparr>) messages system tools max_tokens
                  response_format json_mode)"
proof -
  have nonempty: "generate_contextual_response s u y \<noteq> []" for s u y
    by (simp add: generate_contextual_response_def Let_def search_response_def
        summary_response_def parse_response_def evaluation_response_def report_response_def
        fallback_response_def)
  have "json_mode_response \<noteq> []"
    by (simp add: json_mode_response_def)
  with assms nonempty show ?thesis
    by (simp add: complete_def Let_def truthy_def generate_contextual_response_def)
qed

theorem complete_empty_override_ignored_witness:
  "default_response (init ''mock-model'' (Some [])) = Some [] \<and>
   content (fst (complete (init ''mock-model'' (Some []))
     [[(''role'', PStr ''user''), (''content'', PStr ''Summarize this'')]] [] None 1024 None False))
   = summary_response \<and>
   content (fst (complete (init ''mock-model'' (Some []))
     [[(''role'', PStr ''user''), (''content'', PStr ''Summarize this'')]] [] None 1024 None True))
   = json_mode_response"
proof -
  have a: "default_response (init ''mock-model'' (Some [])) = Some []"
    by (simp add: init_def)
  have g: "generate_contextual_response
             (init ''mock-model'' (Some [])\<lparr>priv_call_count :=
                priv_call_count (init ''mock-model'' (Some [])) + 1\<rparr>)
             (last_user_message [[(''role'', PStr ''user''), (''content'', PStr ''Summarize this'')]]) []
           = summary_response"
    by code_simp
  have c1: "content (fst (complete (init ''mock-model'' (Some []))
     [[(''role'', PStr ''user''), (''content'', PStr ''Summarize this'')]] [] None 1024 None False))
     = summary_response"
    using complete_empty_override_ignored [OF a,
      of "[[(''role'', PStr ''user''), (''content'', PStr ''Summarize this'')]]" "[]" None 1024 None False,
      THEN conjunct1] g
    by simp
  have c2: "content (fst (complete (init ''mock-model'' (Some []))
     [[(''role'', PStr ''user''), (''content'', PStr ''Summarize this'')]] [] None 1024 None True))
     = json_mode_response"
    using complete_empty_override_ignored [OF a,
      of "[[(''role'', PStr ''user''), (''content'', PStr ''Summarize this'')]]" "[]" None 1024 None True,
      THEN conjunct1]
    by simp
  from a c1 c2 show ?thesis by blast
qed

text \<open>
  C2, as amended. With \<^verbatim>\<open>json_mode\<close> true and no override in effect (\<^verbatim>\<open>default_response\<close>
  is \<^verbatim>\<open>None\<close> or empty) the content is the fixed JSON object, which is valid JSON text;
  with a non-empty override the content is the override, so it is valid JSON exactly
  when the override is.
\<close>

theorem complete_json_mode_valid:
  "(\<not> truthy (default_response self) \<longrightarrow>
      content (fst (complete self messages system tools max_tokens response_format True))
        = json_mode_response
      \<and> is_json (content (fst (complete self messages system tools max_tokens response_format True))))
   \<and> (truthy (default_response self) \<longrightarrow>
      is_json (content (fst (complete self messages system tools max_tokens response_format True)))
        = is_json (the (default_response self)))"
  by (simp add: complete_content json_mode_response_valid)

theorem complete_json_mode_valid_witness:
  "\<not> truthy (default_response init_default) \<and>
   is_json (content (fst (complete init_default
     [[(''role'', PStr ''user''), (''content'', PStr ''search'')]] ''be brief'' None 1024 None True)))"
proof -
  have a: "\<not> truthy (default_response init_default)"
    by (simp add: init_default_def init_def truthy_def)
  from complete_json_mode_valid [of init_default
      "[[(''role'', PStr ''user''), (''content'', PStr ''search'')]]" "''be brief''" None 1024 None] a
  show ?thesis by blast
qed

text \<open>
  C2, as stated, fails when an override is configured: with \<^verbatim>\<open>json_mode\<close> true the content
  is the override, here \<^verbatim>\<open>hello\<close>, which is not JSON text.
\<close>

theorem complete_json_mode_override_counterexample:
  "\<not> is_json (content (fst (complete (init ''mock-model'' (Some ''hello''))
      [[(''role'', PStr ''user''), (''content'', PStr ''Hi'')]] [] None 1024 None True)))"
proof -
  have "content (fst (complete (init ''mock-model'' (Some ''hello''))
      [[(''role'', PStr ''user''), (''content'', PStr ''Hi'')]] [] None 1024 None True)) = ''hello''"
    by (simp add: complete_content truthy_def init_def)
  moreover have "\<not> is_json ''hello''"
    by code_simp
  ultimately show ?thesis by simp
qed

text \<open>
  C6. In both operations \<^verbatim>\<open>input_tokens\<close> is the length of the text form of the whole
  message list divided by 4 and \<^verbatim>\<open>output_tokens\<close> is the length of the returned content
  divided by 4, both rounded down; neither is negative.
\<close>

theorem token_accounting:
  "input_tokens (fst (complete self messages system tools max_tokens response_format json_mode))
     = int (length (py_repr (PList (map PDict messages)))) div 4
   \<and> output_tokens (fst (complete self messages system tools max_tokens response_format json_mode))
     = int (length (content (fst (complete self messages system tools max_tokens
                                     response_format json_mode)))) div 4
   \<and> input_tokens (fst (complete_with_tools self messages system tools' tool_executor max_iterations))
     = int (length (py_repr (PList (map PDict messages)))) div 4
   \<and> output_tokens (fst (complete_with_tools self messages system tools' tool_executor max_iterations))
     = int (length (content (fst (complete_with_tools self messages system tools' tool_executor
                                     max_iterations)))) div 4
   \<and> 0 \<le> input_tokens (fst (complete self messages system tools max_tokens response_format json_mode))
   \<and> 0 \<le> output_tokens (fst (complete self messages system tools max_tokens response_format json_mode))
   \<and> 0 \<le> input_tokens (fst (complete_with_tools self messages system tools' tool_executor max_iterations))
   \<and> 0 \<le> output_tokens (fst (complete_with_tools self messages system tools' tool_executor max_iterations))"
proof -
  have nn: "0 \<le> int n div 4" for n
    by (simp add: pos_imp_zdiv_nonneg_iff)
  have c: "input_tokens (fst (complete self messages system tools max_tokens response_format json_mode))
             = int (length (py_repr (PList (map PDict messages)))) div 4"
          "output_tokens (fst (complete self messages system tools max_tokens response_format json_mode))
             = int (length (content (fst (complete self messages system tools max_tokens
                                     response_format json_mode)))) div 4"
    by (simp_all add: complete_def Let_def del: py_repr.simps)
  have t: "input_tokens (fst (complete_with_tools self messages system tools' tool_executor max_iterations))
             = int (length (py_repr (PList (map PDict messages)))) div 4"
          "output_tokens (fst (complete_with_tools self messages system tools' tool_executor max_iterations))
             = int (length (content (fst (complete_with_tools self messages system tools' tool_executor
                                     max_iterations)))) div 4"
    by (simp_all add: complete_with_tools_def Let_def del: py_repr.simps)
  show ?thesis
    using c t nn by presburger
qed

section \<open>Classification\<close>


lemma generate_contextual_response_classify:
  "generate_contextual_response self user_message system =
     classify (lower (user_message @ system)) (priv_call_count self)"
  by (simp add: generate_contextual_response_def classify_def categories_def matches_def Let_def)

lemma first_match_index:
  assumes "i < length cs" and "matches (cs ! i) text" and "\<forall>j<i. \<not> matches (cs ! j) text"
  shows "first_match cs text = Some (snd (cs ! i))"
  using assms
proof (induction cs arbitrary: i)
  case Nil
  then show ?case by simp
next
  case (Cons c cs)
  show ?case
  proof (cases i)
    case 0
    with Cons.prems show ?thesis by simp
  next
    case (Suc k)
    with Cons.prems have "\<not> matches c text"
      by auto
    moreover have "first_match cs text = Some (snd (cs ! k))"
    proof (rule Cons.IH)
      show "k < length cs" using Cons.prems Suc by simp
      show "matches (cs ! k) text" using Cons.prems Suc by simp
      show "\<forall>j<k. \<not> matches (cs ! j) text"
      proof (intro allI impI)
        fix j assume "j < k"
        then have "Suc j < i" using Suc by simp
        with Cons.prems have "\<not> matches ((c # cs) ! Suc j) text" by blast
        then show "\<not> matches (cs ! j) text" by simp
      qed
    qed
    ultimately show ?thesis using Suc by simp
  qed
qed

lemma scan_user_filter:
  "scan_user ms =
     (case filter is_user ms of
        [] \<Rightarrow> []
      | u # us \<Rightarrow> py_str (dict_get_default u ''content'' (PStr [])))"
  by (induction ms) (simp_all add: is_user_def)

lemma last_user_message_spec: "last_user_message messages = most_recent_user_content messages"
proof (cases "filter is_user messages" rule: rev_cases)
  case Nil
  then show ?thesis
    by (simp add: last_user_message_def most_recent_user_content_def scan_user_filter rev_filter [symmetric])
next
  case (snoc us u)
  then have "filter is_user (rev messages) = u # rev us"
    by (simp add: rev_filter [symmetric])
  moreover have "last (filter is_user messages) = u"
    using snoc by simp
  moreover have "filter is_user messages \<noteq> []"
    using snoc by simp
  ultimately show ?thesis
    by (auto simp add: last_user_message_def most_recent_user_content_def scan_user_filter
        split: list.splits)
qed

text \<open>
  C3. Without an override and without \<^verbatim>\<open>json_mode\<close>, the content of \<^verbatim>\<open>complete\<close> is the
  response of the earliest row of the priority table (search; summar; parse or extract;
  evaluat or quality; write or report) that has a substring in the combined lowercase
  text. In particular a text that holds both \<^verbatim>\<open>search\<close> and \<^verbatim>\<open>summar\<close> gets the search
  response, which is not the summary response.
\<close>

theorem complete_priority_order:
  assumes "\<not> truthy (default_response self)"
  shows "(\<forall>i < length categories.
            matches (categories ! i) (lower (last_user_message messages @ system))
            \<and> (\<forall>j<i. \<not> matches (categories ! j) (lower (last_user_message messages @ system)))
            \<longrightarrow> content (fst (complete self messages system tools max_tokens response_format False))
                  = snd (categories ! i))
         \<and> (py_in ''search'' (lower (last_user_message messages @ system))
            \<and> py_in ''summar'' (lower (last_user_message messages @ system))
            \<longrightarrow> content (fst (complete self messages system tools max_tokens response_format False))
                  = search_response
                \<and> content (fst (complete self messages system tools max_tokens response_format False))
                  \<noteq> summary_response)"
proof -
  let ?t = "lower (last_user_message messages @ system)"
  let ?c = "content (fst (complete self messages system tools max_tokens response_format False))"
  have c: "?c = classify ?t (priv_call_count self + 1)"
    using assms by (simp add: complete_content generate_contextual_response_classify)
  have first: "\<forall>i < length categories.
      matches (categories ! i) ?t \<and> (\<forall>j<i. \<not> matches (categories ! j) ?t)
      \<longrightarrow> ?c = snd (categories ! i)"
  proof (intro allI impI)
    fix i
    assume i: "i < length categories"
      and m: "matches (categories ! i) ?t \<and> (\<forall>j<i. \<not> matches (categories ! j) ?t)"
    from first_match_index [OF i] m have "first_match categories ?t = Some (snd (categories ! i))"
      by blast
    with c show "?c = snd (categories ! i)"
      by (simp add: classify_def)
  qed
  have differ: "search_response \<noteq> summary_response"
    by (simp add: search_response_def summary_response_def)
  have "py_in ''search'' ?t \<longrightarrow> ?c = search_response"
    using c by (simp add: classify_def categories_def matches_def)
  with first differ show ?thesis
    by simp
qed

theorem complete_priority_order_witness:
  "\<not> truthy (default_response init_default)
   \<and> py_in ''search'' (lower (last_user_message
        [[(''role'', PStr ''user''), (''content'', PStr ''Summarize the Search results'')]] @ []))
   \<and> py_in ''summar'' (lower (last_user_message
        [[(''role'', PStr ''user''), (''content'', PStr ''Summarize the Search results'')]] @ []))
   \<and> content (fst (complete init_default
        [[(''role'', PStr ''user''), (''content'', PStr ''Summarize the Search results'')]]
        [] None 1024 None False)) = search_response"
proof -
  have a: "\<not> truthy (default_response init_default)"
    by (simp add: init_default_def init_def truthy_def)
  have s1: "py_in ''search'' (lower (last_user_message
        [[(''role'', PStr ''user''), (''content'', PStr ''Summarize the Search results'')]] @ []))"
    by code_simp
  have s2: "py_in ''summar'' (lower (last_user_message
        [[(''role'', PStr ''user''), (''content'', PStr ''Summarize the Search results'')]] @ []))"
    by code_simp
  from complete_priority_order [OF a,
      of "[[(''role'', PStr ''user''), (''content'', PStr ''Summarize the Search results'')]]" "[]"
         None 1024 None, THEN conjunct2] s1 s2
  have "content (fst (complete init_default
        [[(''role'', PStr ''user''), (''content'', PStr ''Summarize the Search results'')]]
        [] None 1024 None False)) = search_response"
    by blast
  with a s1 s2 show ?thesis by blast
qed

text \<open>
  C7. Without an override and without \<^verbatim>\<open>json_mode\<close>, the content of \<^verbatim>\<open>complete\<close> is the
  classification of one text: the content (as text) of the most recent message whose
  role is \<^verbatim>\<open>user\<close>, or the empty string when there is none, followed by the system
  string, in lowercase. A message list without a user message is not an error: the text
  is then the lowercase system string alone.
\<close>

theorem complete_classifies_last_user_message:
  "last_user_message messages = most_recent_user_content messages
   \<and> (\<not> truthy (default_response self) \<longrightarrow>
        content (fst (complete self messages system tools max_tokens response_format False))
          = classify (lower (most_recent_user_content messages @ system)) (priv_call_count self + 1))
   \<and> (filter is_user messages = [] \<longrightarrow>
        most_recent_user_content messages = []
        \<and> (\<not> truthy (default_response self) \<longrightarrow>
             content (fst (complete self messages system tools max_tokens response_format False))
               = classify (lower system) (priv_call_count self + 1)))"
  by (simp add: complete_content generate_contextual_response_classify last_user_message_spec)
     (simp add: most_recent_user_content_def)

theorem complete_classifies_last_user_message_witness:
  "\<not> truthy (default_response init_default)
   \<and> most_recent_user_content
        [[(''role'', PStr ''user''), (''content'', PStr ''write a report'')],
         [(''role'', PStr ''assistant''), (''content'', PStr ''search'')],
         [(''role'', PStr ''user''), (''content'', PStr ''Evaluate it'')],
         [(''role'', PStr ''assistant''), (''content'', PStr ''summary'')]] = ''Evaluate it''
   \<and> content (fst (complete init_default
        [[(''role'', PStr ''user''), (''content'', PStr ''write a report'')],
         [(''role'', PStr ''assistant''), (''content'', PStr ''search'')],
         [(''role'', PStr ''user''), (''content'', PStr ''Evaluate it'')],
         [(''role'', PStr ''assistant''), (''content'', PStr ''summary'')]]
        [] None 1024 None False)) = evaluation_response
   \<and> filter is_user [[(''role'', PStr ''assistant''), (''content'', PStr ''search'')]] = []
   \<and> content (fst (complete init_default
        [[(''role'', PStr ''assistant''), (''content'', PStr ''search'')]]
        ''Extract the names'' None 1024 None False)) = parse_response"
proof -
  let ?ms = "[[(''role'', PStr ''user''), (''content'', PStr ''write a report'')],
         [(''role'', PStr ''assistant''), (''content'', PStr ''search'')],
         [(''role'', PStr ''user''), (''content'', PStr ''Evaluate it'')],
         [(''role'', PStr ''assistant''), (''content'', PStr ''summary'')]]"
  let ?ns = "[[(''role'', PStr ''assistant''), (''content'', PStr ''search'')]]"
  have a: "\<not> truthy (default_response init_default)"
    by (simp add: init_default_def init_def truthy_def)
  have m: "most_recent_user_content ?ms = ''Evaluate it''"
    by code_simp
  have e: "classify (lower (most_recent_user_content ?ms @ [])) (priv_call_count init_default + 1)
             = evaluation_response"
    by code_simp
  have f: "filter is_user ?ns = []"
    by code_simp
  have p: "classify (lower ''Extract the names'') (priv_call_count init_default + 1) = parse_response"
    by code_simp
  have c1: "content (fst (complete init_default ?ms [] None 1024 None False)) = evaluation_response"
    using complete_classifies_last_user_message [of ?ms init_default "[]" None 1024 None] a e
    by simp
  have c2: "content (fst (complete init_default ?ns ''Extract the names'' None 1024 None False))
              = parse_response"
    using complete_classifies_last_user_message [of ?ns init_default "''Extract the names''" None 1024 None]
      a f p
    by simp
  from a m c1 f c2 show ?thesis by blast
qed

section \<open>When \<^verbatim>\<open>complete\<close> returns\<close>

lemma first_raise_None: "first_raise xs = None \<longleftrightarrow> (\<forall>x\<in>set xs. x = None)"
  by (induction xs rule: first_raise.induct) auto

lemma foldr_max_le: "foldr max ys (0::nat) \<le> d \<longleftrightarrow> (\<forall>y\<in>set ys. y \<le> d)"
  by (induction ys) auto

lemma nesting_pos: "0 < nesting v"
  by (cases v) simp_all

lemma repr_raises_None_iff: "repr_raises d v = None \<longleftrightarrow> nesting v \<le> d \<and> short_ints v"
proof (induction d arbitrary: v)
  case 0
  then show ?case
    using nesting_pos [of v] by simp
next
  case (Suc d)
  show ?case
  proof (cases v)
    case (PList xs)
    then show ?thesis
      by (auto simp add: first_raise_None foldr_max_le list_all_iff Suc.IH)
  next
    case (PDict kvs)
    then show ?thesis
      by (auto simp add: first_raise_None foldr_max_le list_all_iff Suc.IH)
  qed simp_all
qed

lemma repr_raises_member:
  assumes "repr_raises depth (PList (map PDict messages)) = None"
    and "m \<in> set messages" and "kv \<in> set m"
  shows "repr_raises depth (snd kv) = None"
proof -
  from assms(1) have n: "nesting (PList (map PDict messages)) \<le> depth"
    and s: "short_ints (PList (map PDict messages))"
    by (simp_all only: repr_raises_None_iff)
  from n assms(2) have "nesting (PDict m) \<le> depth"
    by (auto simp add: foldr_max_le Suc_le_eq dest: less_imp_le)
  with assms(3) have "nesting (snd kv) \<le> depth"
    by (auto simp add: foldr_max_le Suc_le_eq dest: less_imp_le)
  moreover from s assms(2) have "short_ints (PDict m)"
    by (auto simp add: list_all_iff)
  with assms(3) have "short_ints (snd kv)"
    by (auto simp add: list_all_iff)
  ultimately show ?thesis
    by (simp only: repr_raises_None_iff)
qed

lemma str_raises_None: "repr_raises depth v = None \<Longrightarrow> str_raises depth v = None"
  by (cases v) (simp_all add: str_raises_def)

lemma scan_user_raises_None:
  assumes "\<And>m kv. m \<in> set ms \<Longrightarrow> kv \<in> set m \<Longrightarrow> repr_raises depth (snd kv) = None"
  shows "scan_user_raises depth ms = None"
  using assms
proof (induction ms)
  case Nil
  then show ?case by simp
next
  case (Cons msg rest)
  have "str_raises depth (dict_get_default msg ''content'' (PStr [])) = None"
  proof (cases "map_of msg ''content''")
    case None
    then show ?thesis
      by (simp add: dict_get_default_def str_raises_def)
  next
    case (Some v)
    then have "(''content'', v) \<in> set msg"
      by (rule map_of_SomeD)
    with Cons.prems [of msg "(''content'', v)"] have "repr_raises depth v = None"
      by simp
    with Some show ?thesis
      by (simp add: dict_get_default_def str_raises_None)
  qed
  moreover have "scan_user_raises depth rest = None"
    using Cons.prems by (intro Cons.IH) auto
  ultimately show ?case
    by simp
qed

lemma generate_contextual_response_raises_fallback:
  "generate_contextual_response_raises self user_message system =
     (if first_match categories (lower (user_message @ system)) = None \<and> too_long (priv_call_count self)
      then Some ValueError else None)"
  by (simp add: generate_contextual_response_raises_def categories_def matches_def Let_def)

lemma not_too_long_small: "abs i < 10 \<Longrightarrow> \<not> too_long i"
proof -
  assume small: "abs i < 10"
  have "0 < int_max_str_digits"
    by (simp add: int_max_str_digits_def)
  then have "(10::int) ^ 1 \<le> 10 ^ int_max_str_digits"
    by (intro power_increasing) simp_all
  then have "(10::int) \<le> 10 ^ int_max_str_digits"
    by simp
  with small show ?thesis
    by (simp add: too_long_def)
qed

lemma repr_raises_int:
  "0 < depth \<Longrightarrow> repr_raises depth (PInt i) = (if too_long i then Some ValueError else None)"
  by (cases depth) simp_all

text \<open>
  C8, as amended. \<^verbatim>\<open>complete\<close> advances the counter on every call, and its outcome does not
  depend on \<^verbatim>\<open>tools\<close>, \<^verbatim>\<open>max_tokens\<close> or \<^verbatim>\<open>response_format\<close>. It returns a response exactly
  when the message list is nested no deeper than the interpreter allows, every integer in
  it has at most 4300 digits and, in the fallback branch, so has the call count; otherwise
  it raises. The response it returns is well formed, echoes the model name and has the
  override, the JSON object or the classified response as content. An empty history, a
  history without a user message and a user message without content are no errors: the
  last user message is then the empty string.
\<close>

theorem complete_returns_within_limits:
  "snd (complete_outcome depth self messages system tools max_tokens response_format json_mode)
     = self\<lparr>priv_call_count := priv_call_count self + 1\<rparr>
   \<and> complete_outcome depth self messages system tools max_tokens response_format json_mode
     = complete_outcome depth self messages system None 1024 None json_mode
   \<and> ((\<exists>r. fst (complete_outcome depth self messages system tools max_tokens response_format json_mode)
              = Inr r)
      \<longleftrightarrow> nesting (PList (map PDict messages)) \<le> depth
          \<and> short_ints (PList (map PDict messages))
          \<and> (\<not> truthy (default_response self) \<and> \<not> json_mode
               \<and> first_match categories (lower (last_user_message messages @ system)) = None
             \<longrightarrow> \<not> too_long (priv_call_count self + 1)))
   \<and> (\<forall>r. fst (complete_outcome depth self messages system tools max_tokens response_format json_mode)
             = Inr r
          \<longrightarrow> r = fst (complete self messages system tools max_tokens response_format json_mode)
              \<and> valid_result r
              \<and> response_model r = model self
              \<and> content r =
                  (if truthy (default_response self) then the (default_response self)
                   else if json_mode then json_mode_response
                   else classify (lower (most_recent_user_content messages @ system))
                          (priv_call_count self + 1)))
   \<and> last_user_message [] = []
   \<and> (list_all (\<lambda>m. \<not> is_user m) messages \<longrightarrow> last_user_message messages = [])
   \<and> (is_user m \<and> map_of m ''content'' = None \<longrightarrow> last_user_message (messages @ [m]) = [])"
proof -
  let ?O = "complete_outcome depth self messages system tools max_tokens response_format json_mode"
  let ?M = "PList (map PDict messages)"
  let ?self = "self\<lparr>priv_call_count := priv_call_count self + 1\<rparr>"
  let ?fb = "\<not> truthy (default_response self) \<and> \<not> json_mode
               \<and> first_match categories (lower (last_user_message messages @ system)) = None"
  let ?pick = "if truthy (default_response ?self) then None
               else if json_mode then None
               else generate_contextual_response_raises ?self (last_user_message messages) system"
  have pick: "?pick = None \<longleftrightarrow> (?fb \<longrightarrow> \<not> too_long (priv_call_count self + 1))"
    by (auto simp add: generate_contextual_response_raises_fallback)
  have st: "snd ?O = ?self"
    by (simp add: complete_outcome_def Let_def split: option.splits)
  have ci: "complete self messages system None 1024 None json_mode
              = complete self messages system tools max_tokens response_format json_mode"
    by (simp add: complete_def)
  have ind: "?O = complete_outcome depth self messages system None 1024 None json_mode"
    by (simp only: complete_outcome_def ci)
  have scan: "scan_user_raises depth (rev messages) = None" if "repr_raises depth ?M = None"
  proof (rule scan_user_raises_None)
    fix m kv
    assume "m \<in> set (rev messages)" and "kv \<in> set m"
    with that show "repr_raises depth (snd kv) = None"
      by (auto intro: repr_raises_member)
  qed
  have ret: "(\<exists>r. fst ?O = Inr r) \<longleftrightarrow> repr_raises depth ?M = None \<and> ?pick = None"
  proof (cases "repr_raises depth ?M")
    case None
    from scan [OF None] None show ?thesis
      by (simp add: complete_outcome_def Let_def split: option.splits)
  next
    case (Some e)
    then show ?thesis
      by (simp add: complete_outcome_def Let_def split: option.splits)
  qed
  have iff: "(\<exists>r. fst ?O = Inr r)
      \<longleftrightarrow> nesting ?M \<le> depth \<and> short_ints ?M \<and> (?fb \<longrightarrow> \<not> too_long (priv_call_count self + 1))"
    unfolding ret pick repr_raises_None_iff by blast
  have nn: "0 \<le> int n div 4" for n
    by (simp add: pos_imp_zdiv_nonneg_iff)
  have v: "valid_result (fst (complete self messages system tools max_tokens response_format json_mode))"
    using nn by (simp add: valid_result_def complete_def Let_def del: py_repr.simps)
  have md: "response_model (fst (complete self messages system tools max_tokens response_format json_mode))
             = model self"
    by (simp add: complete_def Let_def)
  have ct: "content (fst (complete self messages system tools max_tokens response_format json_mode)) =
              (if truthy (default_response self) then the (default_response self)
               else if json_mode then json_mode_response
               else classify (lower (most_recent_user_content messages @ system))
                      (priv_call_count self + 1))"
    by (simp add: complete_content generate_contextual_response_classify last_user_message_spec)
  have same: "fst ?O = Inr r \<Longrightarrow>
      r = fst (complete self messages system tools max_tokens response_format json_mode)" for r
    by (simp add: complete_outcome_def Let_def split: option.splits if_splits)
  have res: "\<forall>r. fst ?O = Inr r
          \<longrightarrow> r = fst (complete self messages system tools max_tokens response_format json_mode)
              \<and> valid_result r
              \<and> response_model r = model self
              \<and> content r =
                  (if truthy (default_response self) then the (default_response self)
                   else if json_mode then json_mode_response
                   else classify (lower (most_recent_user_content messages @ system))
                          (priv_call_count self + 1))"
    using same v md ct by blast
  have e: "last_user_message [] = []"
    by (simp add: last_user_message_def)
  have n: "list_all (\<lambda>m. \<not> is_user m) messages \<longrightarrow> last_user_message messages = []"
  proof
    assume "list_all (\<lambda>m. \<not> is_user m) messages"
    then have "filter is_user messages = []"
      by (simp add: list_all_iff filter_empty_conv)
    then show "last_user_message messages = []"
      by (simp add: last_user_message_spec most_recent_user_content_def)
  qed
  have c: "is_user m \<and> map_of m ''content'' = None \<longrightarrow> last_user_message (messages @ [m]) = []"
    by (simp add: last_user_message_def is_user_def dict_get_default_def py_str_def)
  from st ind iff res e n c show ?thesis
    by blast
qed

theorem complete_returns_within_limits_witness:
  "nesting (PList (map PDict [[(''role'', PStr ''assistant''), (''content'', PNone)], [(''role'', PStr ''user'')]]))
     \<le> 1000
   \<and> short_ints (PList (map PDict [[(''role'', PStr ''assistant''), (''content'', PNone)], [(''role'', PStr ''user'')]]))
   \<and> \<not> too_long (priv_call_count init_default + 1)
   \<and> is_user [(''role'', PStr ''user'')] \<and> map_of [(''role'', PStr ''user'')] ''content'' = None
   \<and> last_user_message ([[(''role'', PStr ''assistant''), (''content'', PNone)], [(''role'', PStr ''user'')]]
        @ [[(''role'', PStr ''user'')]]) = []
   \<and> (\<exists>r. fst (complete_outcome 1000 init_default
              [[(''role'', PStr ''assistant''), (''content'', PNone)], [(''role'', PStr ''user'')]]
              [] None 1024 None False) = Inr r
          \<and> valid_result r
          \<and> content r = fallback_response 1)"
proof -
  let ?ms = "[[(''role'', PStr ''assistant''), (''content'', PNone)], [(''role'', PStr ''user'')]]"
  have a: "nesting (PList (map PDict ?ms)) \<le> 1000"
    by simp
  have b: "short_ints (PList (map PDict ?ms))"
    by simp
  have c: "\<not> too_long (priv_call_count init_default + 1)"
    by (rule not_too_long_small) (simp add: init_default_def init_def)
  have d: "is_user [(''role'', PStr ''user'')] \<and> map_of [(''role'', PStr ''user'')] ''content'' = None"
    by (simp add: is_user_def dict_get_def)
  note t = complete_returns_within_limits [of 1000 init_default ?ms "[]" None 1024 None False
      "[(''role'', PStr ''user'')]"]
  from t a b c obtain r where r: "fst (complete_outcome 1000 init_default ?ms [] None 1024 None False) = Inr r"
    by blast
  with t have v: "valid_result r"
    and k: "content r = (if truthy (default_response init_default) then the (default_response init_default)
                   else if False then json_mode_response
                   else classify (lower (most_recent_user_content ?ms @ []))
                          (priv_call_count init_default + 1))"
    by blast+
  have "classify (lower (most_recent_user_content ?ms @ [])) (priv_call_count init_default + 1)
          = fallback_response 1"
    by code_simp
  with k have k': "content r = fallback_response 1"
    by (simp add: init_default_def init_def truthy_def)
  have l: "last_user_message ([[(''role'', PStr ''assistant''), (''content'', PNone)], [(''role'', PStr ''user'')]]
        @ [[(''role'', PStr ''user'')]]) = []"
    using t [THEN conjunct2, THEN conjunct2, THEN conjunct2, THEN conjunct2, THEN conjunct2,
        THEN conjunct2] d
    by (rule mp)
  from a b c d l r v k' show ?thesis
    by blast
qed

text \<open>
  C8, as stated, fails on a user message whose content is an integer of 4301 digits, here
  \<open>10 ^ 4300\<close>: \<^verbatim>\<open>str(msg.get("content", ""))\<close> raises \<^verbatim>\<open>ValueError\<close> and \<^verbatim>\<open>complete\<close> returns
  no result.
\<close>

theorem complete_raises_on_long_integer_counterexample:
  "fst (complete_outcome 1000 init_default
          [[(''role'', PStr ''user''), (''content'', PInt (10 ^ int_max_str_digits))]]
          [] None 1024 None False) = Inl ValueError"
proof -
  have "too_long (10 ^ int_max_str_digits)"
    by (simp add: too_long_def)
  then have "str_raises 1000 (PInt (10 ^ int_max_str_digits)) = Some ValueError"
    by (simp add: str_raises_def repr_raises_int)
  then show ?thesis
    by (simp add: complete_outcome_def dict_get_def dict_get_default_def)
qed

section \<open>The call counter\<close>

lemma apply_call_count:
  "call_count (apply_call self c) =
     (if is_reset c then 0 else if is_completion c then call_count self + 1 else call_count self)"
  by (cases c) (simp_all add: call_count_def complete_state complete_with_tools_state reset_def)

lemma run_calls_snoc: "run_calls self (cs @ [c]) = apply_call (run_calls self cs) c"
  by (simp add: run_calls_def)

lemma run_calls_count:
  "list_all (\<lambda>c. \<not> is_reset c) cs \<Longrightarrow>
     call_count (run_calls self cs) = call_count self + int (length (filter is_completion cs))"
proof (induction cs rule: rev_induct)
  case Nil
  then show ?case by (simp add: run_calls_def)
next
  case (snoc c cs)
  then show ?case
    by (simp add: run_calls_snoc apply_call_count)
qed

lemma run_calls_append: "run_calls self (cs @ ds) = run_calls (run_calls self cs) ds"
  by (simp add: run_calls_def)

text \<open>
  C5. On a freshly constructed provider the counter is zero. Each call of \<^verbatim>\<open>complete\<close> or
  \<^verbatim>\<open>complete_with_tools\<close> adds exactly one, \<^verbatim>\<open>reset()\<close> sets the counter to zero, and
  reading \<^verbatim>\<open>call_count\<close> changes nothing. So after any sequence of calls without
  \<^verbatim>\<open>reset()\<close> the counter is the number of contract operations in it (N after N of them),
  and after a sequence with resets it is the number of contract operations since the
  last one.
\<close>

theorem call_count_counts_calls:
  "call_count (init m d) = 0
   \<and> call_count (snd (complete self messages system tools max_tokens response_format json_mode))
       = call_count self + 1
   \<and> call_count (snd (complete_with_tools self messages system tools tool_executor max_iterations))
       = call_count self + 1
   \<and> call_count (reset self) = 0
   \<and> apply_call self ReadCallCount = self
   \<and> (list_all is_completion cs \<longrightarrow> call_count (run_calls (init m d) cs) = int (length cs))
   \<and> (list_all (\<lambda>c. \<not> is_reset c) cs \<longrightarrow>
        call_count (run_calls (init m d) cs) = int (length (filter is_completion cs)))
   \<and> (list_all (\<lambda>c. \<not> is_reset c) cs \<longrightarrow>
        call_count (run_calls self (ds @ [Reset] @ cs)) = int (length (filter is_completion cs)))"
proof -
  have z: "call_count (init m d) = 0"
    by (simp add: init_def call_count_def)
  have r: "call_count (reset self) = 0"
    by (simp add: reset_def call_count_def)
  have c1: "call_count (snd (complete self messages system tools max_tokens response_format json_mode))
       = call_count self + 1"
    by (simp add: complete_state call_count_def)
  have c2: "call_count (snd (complete_with_tools self messages system tools tool_executor max_iterations))
       = call_count self + 1"
    by (simp add: complete_with_tools_state call_count_def)
  have nr: "list_all (\<lambda>c. \<not> is_reset c) cs \<longrightarrow>
        call_count (run_calls (init m d) cs) = int (length (filter is_completion cs))"
    using run_calls_count [of cs "init m d"] z by simp
  have "list_all is_completion cs \<Longrightarrow> list_all (\<lambda>c. \<not> is_reset c) cs"
  proof -
    assume all: "list_all is_completion cs"
    have "is_completion c \<Longrightarrow> \<not> is_reset c" for c
      by (cases c) simp_all
    with all show ?thesis
      by (auto simp add: list_all_iff)
  qed
  moreover have "list_all is_completion cs \<Longrightarrow> filter is_completion cs = cs"
    by (simp add: list_all_iff)
  ultimately have n: "list_all is_completion cs \<longrightarrow> call_count (run_calls (init m d) cs) = int (length cs)"
    using nr by auto
  have ar: "list_all (\<lambda>c. \<not> is_reset c) cs \<longrightarrow>
        call_count (run_calls self (ds @ [Reset] @ cs)) = int (length (filter is_completion cs))"
  proof
    assume nores: "list_all (\<lambda>c. \<not> is_reset c) cs"
    have "run_calls self (ds @ [Reset] @ cs) = run_calls (reset (run_calls self ds)) cs"
      by (simp add: run_calls_def)
    with run_calls_count [OF nores, of "reset (run_calls self ds)"]
    show "call_count (run_calls self (ds @ [Reset] @ cs)) = int (length (filter is_completion cs))"
      by (simp add: reset_def call_count_def)
  qed
  from z r c1 c2 nr n ar show ?thesis
    by simp
qed

theorem call_count_counts_calls_witness:
  "list_all is_completion
     [Complete [[(''role'', PStr ''user''), (''content'', PStr ''Hi'')]] [] None 1024 None False,
      CompleteWithTools [] ''sys'' (Some [\<lparr>name = ''calc'', schema = PNone\<rparr>]) (\<lambda>n a. a) 10,
      Complete [] [] None 1024 None True]
   \<and> call_count (run_calls (init ''mock-model'' None)
     [Complete [[(''role'', PStr ''user''), (''content'', PStr ''Hi'')]] [] None 1024 None False,
      CompleteWithTools [] ''sys'' (Some [\<lparr>name = ''calc'', schema = PNone\<rparr>]) (\<lambda>n a. a) 10,
      Complete [] [] None 1024 None True]) = 3"
proof -
  let ?cs = "[Complete [[(''role'', PStr ''user''), (''content'', PStr ''Hi'')]] [] None 1024 None False,
      CompleteWithTools [] ''sys'' (Some [\<lparr>name = ''calc'', schema = PNone\<rparr>]) (\<lambda>n a. a) 10,
      Complete [] [] None 1024 None True]"
  have a: "list_all is_completion ?cs"
    by simp
  have "call_count (run_calls (init ''mock-model'' None) ?cs) = int (length ?cs)"
    using call_count_counts_calls [of "''mock-model''" None _ _ _ _ _ _ _ _ _ _ ?cs] a
    by blast
  with a show ?thesis by simp
qed

section \<open>The tool loop of the mock\<close>










section \<open>Repeated calls\<close>

lemma digit_char_code: "d < 10 \<Longrightarrow> (of_char (digit_char d) :: nat) = 48 + d"
proof -
  assume "d < 10"
  then have "d = 0 \<or> d = 1 \<or> d = 2 \<or> d = 3 \<or> d = 4 \<or> d = 5 \<or> d = 6 \<or> d = 7 \<or> d = 8 \<or> d = 9"
    by presburger
  then show ?thesis
    by (elim disjE) (simp_all add: digit_char_def)
qed

lemma digit_char_inj: "d < 10 \<Longrightarrow> e < 10 \<Longrightarrow> digit_char d = digit_char e \<Longrightarrow> d = e"
proof -
  assume d: "d < 10" and e: "e < 10" and eq: "digit_char d = digit_char e"
  from eq have "(of_char (digit_char d) :: nat) = of_char (digit_char e)"
    by (rule arg_cong)
  with digit_char_code [OF d] digit_char_code [OF e] show "d = e"
    by linarith
qed

lemma str_nat_nonempty: "str_nat n \<noteq> []"
  by (subst str_nat.simps) simp

lemma str_nat_digits: "CHR ''-'' \<notin> set (str_nat n)"
proof (induction n rule: str_nat.induct)
  case (1 n)
  have d: "digit_char k \<noteq> CHR ''-''" for k
  proof -
    have "k mod 10 < 10" by simp
    from digit_char_code [OF this] have "(of_char (digit_char (k mod 10)) :: nat) \<noteq> 45"
      by simp
    moreover have "digit_char (k mod 10) = digit_char k"
      by (simp add: digit_char_def)
    ultimately show ?thesis
      by auto
  qed
  then have d': "CHR ''-'' \<noteq> digit_char k" for k
    by metis
  show ?case
  proof (cases "n < 10")
    case True
    then show ?thesis
      using d' by (subst str_nat.simps) simp
  next
    case False
    with 1 have "CHR ''-'' \<notin> set (str_nat (n div 10))"
      by simp
    with False show ?thesis
      using d' by (subst str_nat.simps) simp
  qed
qed

lemma str_nat_inj: "str_nat a = str_nat b \<Longrightarrow> a = b"
proof (induction a arbitrary: b rule: str_nat.induct)
  case (1 a)
  show ?case
  proof (cases "a < 10")
    case small_a: True
    show ?thesis
    proof (cases "b < 10")
      case True
      with small_a "1.prems" have "digit_char a = digit_char b"
        by (simp add: str_nat.simps [of a] str_nat.simps [of b])
      with small_a True show ?thesis
        by (rule digit_char_inj)
    next
      case False
      with small_a "1.prems" have "[digit_char a] = str_nat (b div 10) @ [digit_char (b mod 10)]"
        by (simp add: str_nat.simps [of a] str_nat.simps [of b])
      then have "str_nat (b div 10) = []"
        by simp
      then show ?thesis
        by (simp add: str_nat_nonempty)
    qed
  next
    case big_a: False
    show ?thesis
    proof (cases "b < 10")
      case True
      with big_a "1.prems" have "str_nat (a div 10) @ [digit_char (a mod 10)] = [digit_char b]"
        by (simp add: str_nat.simps [of a] str_nat.simps [of b])
      then have "str_nat (a div 10) = []"
        by simp
      then show ?thesis
        by (simp add: str_nat_nonempty)
    next
      case False
      with big_a "1.prems"
      have "str_nat (a div 10) @ [digit_char (a mod 10)] = str_nat (b div 10) @ [digit_char (b mod 10)]"
        by (simp add: str_nat.simps [of a] str_nat.simps [of b])
      then have q: "str_nat (a div 10) = str_nat (b div 10)"
        and r: "digit_char (a mod 10) = digit_char (b mod 10)"
        by simp_all
      from "1.IH" [OF big_a q] have "a div 10 = b div 10" .
      moreover have "a mod 10 = b mod 10"
        using r by (intro digit_char_inj) simp_all
      ultimately show ?thesis
        by (metis div_mult_mod_eq)
    qed
  qed
qed

lemma str_int_inj: "str_int a = str_int b \<Longrightarrow> a = b"
proof -
  assume eq: "str_int a = str_int b"
  consider "a < 0" "b < 0" | "a < 0" "0 \<le> b" | "0 \<le> a" "b < 0" | "0 \<le> a" "0 \<le> b"
    by linarith
  then show ?thesis
  proof cases
    case 1
    with eq have "str_nat (nat (- a)) = str_nat (nat (- b))"
      by (simp add: str_int_def)
    then have "nat (- a) = nat (- b)"
      by (rule str_nat_inj)
    with 1 show ?thesis by simp
  next
    case 2
    with eq have "CHR ''-'' # str_nat (nat (- a)) = str_nat (nat b)"
      by (simp add: str_int_def)
    then have "CHR ''-'' \<in> set (str_nat (nat b))"
      by (metis list.set_intros(1))
    then show ?thesis
      by (simp add: str_nat_digits)
  next
    case 3
    with eq have "str_nat (nat a) = CHR ''-'' # str_nat (nat (- b))"
      by (simp add: str_int_def)
    then have "CHR ''-'' \<in> set (str_nat (nat a))"
      by (metis list.set_intros(1))
    then show ?thesis
      by (simp add: str_nat_digits)
  next
    case 4
    with eq have "str_nat (nat a) = str_nat (nat b)"
      by (simp add: str_int_def)
    then have "nat a = nat b"
      by (rule str_nat_inj)
    with 4 show ?thesis by simp
  qed
qed

lemma fallback_response_inj: "fallback_response a = fallback_response b \<longleftrightarrow> a = b"
  by (auto simp add: fallback_response_def dest: str_int_inj)

lemma classify_matched:
  "first_match categories text \<noteq> None \<Longrightarrow> classify text a = classify text b"
  by (auto simp add: classify_def)

lemma classify_unmatched:
  "first_match categories text = None \<Longrightarrow> classify text a = fallback_response a"
  by (simp add: classify_def)

text \<open>
  C9. Take two invocations of \<^verbatim>\<open>complete\<close> with the same arguments on providers without
  an override. With \<^verbatim>\<open>json_mode\<close>, or when a row of the priority table matches, they
  return the same content and the same \<^verbatim>\<open>output_tokens\<close>. In the fallback branch the
  content names the call count, so the two contents agree only if the two counts do; in
  particular the second of two calls in a row returns a content different from the
  first.
\<close>

theorem complete_repeatable_except_fallback:
  assumes "\<not> truthy (default_response self)" and "\<not> truthy (default_response self')"
  shows "(json_mode \<or> first_match categories (lower (last_user_message messages @ system)) \<noteq> None \<longrightarrow>
            content (fst (complete self messages system tools max_tokens response_format json_mode))
              = content (fst (complete self' messages system tools max_tokens response_format json_mode))
            \<and> output_tokens (fst (complete self messages system tools max_tokens response_format json_mode))
              = output_tokens (fst (complete self' messages system tools max_tokens response_format
                                      json_mode)))
         \<and> (\<not> json_mode \<and> first_match categories (lower (last_user_message messages @ system)) = None \<longrightarrow>
            content (fst (complete self messages system tools max_tokens response_format json_mode))
              = fallback_response (priv_call_count self + 1)
            \<and> (content (fst (complete self messages system tools max_tokens response_format json_mode))
                 = content (fst (complete self' messages system tools max_tokens response_format
                                   json_mode))
               \<longleftrightarrow> priv_call_count self = priv_call_count self')
            \<and> content (fst (complete self messages system tools max_tokens response_format json_mode))
              \<noteq> content (fst (complete
                     (snd (complete self messages system tools max_tokens response_format json_mode))
                     messages system tools max_tokens response_format json_mode)))"
proof -
  let ?t = "lower (last_user_message messages @ system)"
  let ?next = "snd (complete self messages system tools max_tokens response_format json_mode)"
  have c: "content (fst (complete p messages system tools max_tokens response_format json_mode)) =
             (if json_mode then json_mode_response else classify ?t (priv_call_count p + 1))"
    if "\<not> truthy (default_response p)" for p
    using that by (simp add: complete_content generate_contextual_response_classify)
  have o: "output_tokens (fst (complete p messages system tools max_tokens response_format json_mode)) =
             int (length (content (fst (complete p messages system tools max_tokens response_format
                                          json_mode)))) div 4" for p
    by (simp add: complete_def Let_def)
  have nx: "\<not> truthy (default_response ?next)" "priv_call_count ?next = priv_call_count self + 1"
    using assms(1) by (simp_all add: complete_state)
  have same: "json_mode \<or> first_match categories ?t \<noteq> None \<longrightarrow>
       content (fst (complete self messages system tools max_tokens response_format json_mode))
         = content (fst (complete self' messages system tools max_tokens response_format json_mode))"
    using c [OF assms(1)] c [OF assms(2)] classify_matched [of ?t] by auto
  have fb: "\<not> json_mode \<and> first_match categories ?t = None \<longrightarrow>
       content (fst (complete p messages system tools max_tokens response_format json_mode))
         = fallback_response (priv_call_count p + 1)"
    if "\<not> truthy (default_response p)" for p
    using c [OF that] by (auto simp add: classify_unmatched)
  have differ: "\<not> json_mode \<and> first_match categories ?t = None \<longrightarrow>
       content (fst (complete self messages system tools max_tokens response_format json_mode))
         \<noteq> content (fst (complete ?next messages system tools max_tokens response_format json_mode))"
  proof
    assume u: "\<not> json_mode \<and> first_match categories ?t = None"
    from fb [OF assms(1)] u
    have c1: "content (fst (complete self messages system tools max_tokens response_format json_mode))
                = fallback_response (priv_call_count self + 1)"
      by blast
    from fb [OF nx(1)] u
    have c2: "content (fst (complete ?next messages system tools max_tokens response_format json_mode))
                = fallback_response (priv_call_count ?next + 1)"
      by blast
    have "priv_call_count self + 1 \<noteq> priv_call_count ?next + 1"
      unfolding nx(2) by simp
    then have "fallback_response (priv_call_count self + 1) \<noteq> fallback_response (priv_call_count ?next + 1)"
      unfolding fallback_response_inj .
    with c1 c2
    show "content (fst (complete self messages system tools max_tokens response_format json_mode))
         \<noteq> content (fst (complete ?next messages system tools max_tokens response_format json_mode))"
      by simp
  qed
  have iff: "\<not> json_mode \<and> first_match categories ?t = None \<longrightarrow>
       (content (fst (complete self messages system tools max_tokens response_format json_mode))
          = content (fst (complete self' messages system tools max_tokens response_format json_mode))
        \<longleftrightarrow> priv_call_count self = priv_call_count self')"
  proof
    assume u: "\<not> json_mode \<and> first_match categories ?t = None"
    from fb [OF assms(1)] u
    have c1: "content (fst (complete self messages system tools max_tokens response_format json_mode))
                = fallback_response (priv_call_count self + 1)"
      by blast
    from fb [OF assms(2)] u
    have c2: "content (fst (complete self' messages system tools max_tokens response_format json_mode))
                = fallback_response (priv_call_count self' + 1)"
      by blast
    show "content (fst (complete self messages system tools max_tokens response_format json_mode))
          = content (fst (complete self' messages system tools max_tokens response_format json_mode))
        \<longleftrightarrow> priv_call_count self = priv_call_count self'"
      unfolding c1 c2 fallback_response_inj by simp
  qed
  from same o [of self] o [of self'] fb [OF assms(1)] differ iff show ?thesis
    by presburger
qed

theorem complete_repeatable_except_fallback_witness:
  "\<not> truthy (default_response init_default)
   \<and> first_match categories (lower (last_user_message
        [[(''role'', PStr ''user''), (''content'', PStr ''Search for it'')]] @ [])) \<noteq> None
   \<and> content (fst (complete init_default
        [[(''role'', PStr ''user''), (''content'', PStr ''Search for it'')]] [] None 1024 None False))
     = content (fst (complete (snd (complete init_default
        [[(''role'', PStr ''user''), (''content'', PStr ''Search for it'')]] [] None 1024 None False))
        [[(''role'', PStr ''user''), (''content'', PStr ''Search for it'')]] [] None 1024 None False))
   \<and> first_match categories (lower (last_user_message
        [[(''role'', PStr ''user''), (''content'', PStr ''Hello'')]] @ [])) = None
   \<and> content (fst (complete init_default
        [[(''role'', PStr ''user''), (''content'', PStr ''Hello'')]] [] None 1024 None False))
     \<noteq> content (fst (complete (snd (complete init_default
        [[(''role'', PStr ''user''), (''content'', PStr ''Hello'')]] [] None 1024 None False))
        [[(''role'', PStr ''user''), (''content'', PStr ''Hello'')]] [] None 1024 None False))"
proof -
  let ?s = "[[(''role'', PStr ''user''), (''content'', PStr ''Search for it'')]]"
  let ?h = "[[(''role'', PStr ''user''), (''content'', PStr ''Hello'')]]"
  have a: "\<not> truthy (default_response init_default)"
    by (simp add: init_default_def init_def truthy_def)
  have b: "\<not> truthy (default_response (snd (complete init_default ?s [] None 1024 None False)))"
    using a by (simp add: complete_state)
  have m: "first_match categories (lower (last_user_message ?s @ [])) \<noteq> None"
    by code_simp
  have u: "first_match categories (lower (last_user_message ?h @ [])) = None"
    by code_simp
  note t1 = complete_repeatable_except_fallback [OF a b, of False ?s "[]" None 1024 None]
  note t2 = complete_repeatable_except_fallback [OF a a, of False ?h "[]" None 1024 None]
  from a m u t1 t2 show ?thesis
    by blast
qed

end
